theory Spec2Isabelle
  imports Complex_Main "HOL-Library.Word"
begin

unbundle bit_operations_syntax

section \<open>Data model\<close>

text \<open>
  The embedding follows the Go sources of package \<^verbatim>\<open>notescan\<close>: \<^verbatim>\<open>shrink.go\<close> and the files that
  declare the image helpers and the types \<^verbatim>\<open>Pixel\<close> and \<^verbatim>\<open>Pixels\<close>.

  \<^item> \<^verbatim>\<open>uint8\<close> is \<open>8 word\<close>; Go's \<^verbatim>\<open>int\<close> is \<open>int\<close> (no claim depends on
    64-bit overflow); \<^verbatim>\<open>uint(s)\<close> of an \<^verbatim>\<open>int\<close> is written out as \<open>s mod 2 ^ 64\<close>.
  \<^item> \<^verbatim>\<open>float64\<close> is \<open>real\<close>: the arithmetic of the model is exact, where Go rounds
    every result to 53 bits, and the model has no NaN. Where the source can produce a
    NaN (the hue \<^verbatim>\<open>0/0\<close> of the single initial centre of \<^verbatim>\<open>kmeans\<close>) the value that
    depends on it is a parameter of the model.
  \<^item> A returned \<^verbatim>\<open>error\<close> and a runtime panic are both values of type \<open>error\<close>;
    a function that can fail returns \<open>error + 'a\<close>.
  \<^item> A buffer \<^verbatim>\<open>Pixels\<close> (\<^verbatim>\<open>[]*Pixel\<close>) whose slots all hold a pixel is a
    \<open>Pixel list\<close>. Only \<^verbatim>\<open>convertPixels\<close> can leave a slot nil; its result is a
    \<open>Pixel option list\<close>.
\<close>

type_synonym u8 = "8 word"

text \<open>
  The errors of the package, by the message of the \<^verbatim>\<open>fmt.Errorf\<close> that creates them, and
  the runtime panics the modelled code can raise:
  \<^item> \<open>InvalidParameter\<close>: "Shift can't be over 8";
  \<^item> \<open>EmptyInput\<close>: "Pixels is nil" and "Pixels length is zero";
  \<^item> \<open>UnsupportedColorFormat\<close>: "Not supported color: [...]";
  \<^item> \<open>IndexOutOfRange\<close>: the panic of an index expression outside the slice;
  \<^item> \<open>NegativeLength\<close>: the panic of \<^verbatim>\<open>make\<close> with a negative length.
\<close>

datatype error =
    InvalidParameter
  | EmptyInput
  | UnsupportedColorFormat
  | IndexOutOfRange
  | NegativeLength

text \<open>\<^verbatim>\<open>color.RGBA\<close>: four 8-bit channels.\<close>

datatype rgba = RGBA (rgbaR: u8) (rgbaG: u8) (rgbaB: u8) (rgbaA: u8)

text \<open>
  The dynamic type of a \<^verbatim>\<open>color.Color\<close>. \<^verbatim>\<open>convertColor\<close> switches on three of them;
  \<open>Gray\<close> and \<open>NRGBA\<close> stand for the colour types of the standard library that fall
  through to its \<^verbatim>\<open>default\<close> branch.
\<close>

datatype color =
    YCbCr u8 u8 u8
  | RGBAValue rgba
  | RGBAPointer rgba
  | Gray u8
  | NRGBA u8 u8 u8 u8

record Pixel =
  R :: u8
  G :: u8
  B :: u8
  H :: real
  S :: real
  V :: real

type_synonym Pixels = "Pixel list"

record Option_cfg =
  SamplingRate :: real
  Brightness :: real
  Saturation :: real
  ForegroundNum :: int
  Shift :: int
  KMeansIterations :: int

definition DefaultOption :: Option_cfg where
  "DefaultOption =
     \<lparr>SamplingRate = 0.050, Brightness = 0.300, Saturation = 0.200,
      ForegroundNum = 6, Shift = 2, KMeansIterations = 40\<rparr>"

section \<open>Colour conversion\<close>

text \<open>\<^verbatim>\<open>math.Mod(x, y)\<close>: the remainder of the division truncated towards zero.\<close>

definition trunc_toward_zero :: "real \<Rightarrow> int" where
  "trunc_toward_zero x = (if 0 \<le> x then \<lfloor>x\<rfloor> else \<lceil>x\<rceil>)"

definition math_Mod :: "real \<Rightarrow> real \<Rightarrow> real" where
  "math_Mod x y = x - y * of_int (trunc_toward_zero (x / y))"

text \<open>
  The conversion \<^verbatim>\<open>uint8(x)\<close> of a \<^verbatim>\<open>float64\<close>: the fraction is dropped. Outside
  \<open>[0, 256)\<close> Go leaves the result to the implementation; the model wraps around there.
\<close>

definition uint8_of_float :: "real \<Rightarrow> u8" where
  "uint8_of_float x = word_of_int (trunc_toward_zero x)"

definition UIntRGBA :: "u8 \<Rightarrow> u8 \<Rightarrow> u8 \<Rightarrow> rgba" where
  "UIntRGBA r g b = RGBA r g b 255"

text \<open>One channel of \<^verbatim>\<open>FloatRGBA\<close>: \<^verbatim>\<open>ur := uint8(r); if r < 255.0 { ur = uint8(math.Floor(r + 0.5)) }\<close>.\<close>

definition FloatChannel :: "real \<Rightarrow> u8" where
  "FloatChannel r =
     (if r < 255 then uint8_of_float (of_int \<lfloor>r + 0.5\<rfloor>) else uint8_of_float r)"

definition FloatRGBA :: "real \<Rightarrow> real \<Rightarrow> real \<Rightarrow> rgba" where
  "FloatRGBA r g b = UIntRGBA (FloatChannel r) (FloatChannel g) (FloatChannel b)"

definition RGB2HSV :: "u8 \<Rightarrow> u8 \<Rightarrow> u8 \<Rightarrow> real \<times> real \<times> real" where
  "RGB2HSV or8 og8 ob8 =
     (let r = real (unat or8) / 255;
          g = real (unat og8) / 255;
          b = real (unat ob8) / 255;
          mx = max (max r g) b;
          mn = min (min r g) b;
          d = mx - mn;
          h0 = (if d = 0 then 0
                else if mx = r then math_Mod ((g - b) / d) 6
                else if mx = g then (b - r) / d + 2
                else if mx = b then (r - g) / d + 4
                else 0);
          h1 = h0 / 6;
          h = (if h1 < 0 then h1 + 1 else h1);
          s = (if mx \<noteq> 0 then d / mx else 0);
          v = mx
      in (h, s, v))"

definition HSV2RGBA :: "real \<Rightarrow> real \<Rightarrow> real \<Rightarrow> rgba" where
  "HSV2RGBA h s v =
     (let hd0 = h * 360;
          hd1 = (if hd0 \<ge> 360 then 359 else hd0);
          hh = hd1 / 60;
          c = v * s;
          x = c * (1 - \<bar>math_Mod hh 2 - 1\<bar>);
          rgb = (if hh < 1 then (c, x, 0)
                 else if hh < 2 then (x, c, 0)
                 else if hh < 3 then (0, c, x)
                 else if hh < 4 then (0, x, c)
                 else if hh < 5 then (x, 0, c)
                 else (c, 0, x));
          m = v - c
      in case rgb of (r, g, b) \<Rightarrow>
           FloatRGBA ((r + m) * 255) ((g + m) * 255) ((b + m) * 255))"

text \<open>
  \<^verbatim>\<open>convertColor\<close>. \<^verbatim>\<open>color.YCbCrToRGB\<close> belongs to Go's standard library, not to this
  repository: it is the parameter \<open>ycc\<close>.
\<close>

definition convertColor :: "(u8 \<Rightarrow> u8 \<Rightarrow> u8 \<Rightarrow> u8 \<times> u8 \<times> u8) \<Rightarrow> color \<Rightarrow> error + rgba" where
  "convertColor ycc c =
     (case c of
        YCbCr y cb cr \<Rightarrow> (case ycc y cb cr of (r, g, b) \<Rightarrow> Inr (UIntRGBA r g b))
      | RGBAValue newColor \<Rightarrow> Inr newColor
      | RGBAPointer newColor \<Rightarrow> Inr newColor
      | _ \<Rightarrow> Inl UnsupportedColorFormat)"

section \<open>Pixel\<close>

definition Pack :: "Pixel \<Rightarrow> int" where
  "Pack p = push_bit 16 (uint (R p)) OR push_bit 8 (uint (G p)) OR uint (B p)"

definition UnPack :: "int \<Rightarrow> u8 \<times> u8 \<times> u8" where
  "UnPack v =
     (word_of_int (drop_bit 16 v AND 255),
      word_of_int (drop_bit 8 v AND 255),
      word_of_int (v AND 255))"

definition NewPixelRGB :: "u8 \<Rightarrow> u8 \<Rightarrow> u8 \<Rightarrow> Pixel" where
  "NewPixelRGB r g b =
     (case RGB2HSV r g b of (h, s, v) \<Rightarrow> \<lparr>R = r, G = g, B = b, H = h, S = s, V = v\<rparr>)"

text \<open>\<^verbatim>\<open>NewPixel\<close> drops the error of \<^verbatim>\<open>convertColor\<close> and returns nil (\<open>None\<close>).\<close>

definition NewPixel :: "(u8 \<Rightarrow> u8 \<Rightarrow> u8 \<Rightarrow> u8 \<times> u8 \<times> u8) \<Rightarrow> color \<Rightarrow> Pixel option" where
  "NewPixel ycc c =
     (case convertColor ycc c of
        Inl err \<Rightarrow> None
      | Inr cc \<Rightarrow> Some (NewPixelRGB (rgbaR cc) (rgbaG cc) (rgbaB cc)))"

definition NewPixelHSV :: "real \<Rightarrow> real \<Rightarrow> real \<Rightarrow> Pixel" where
  "NewPixelHSV h s v =
     (let c = HSV2RGBA h s v in NewPixelRGB (rgbaR c) (rgbaG c) (rgbaB c))"

definition DistanceHSV :: "Pixel \<Rightarrow> Pixel \<Rightarrow> real \<times> real \<times> real" where
  "DistanceHSV p src = (\<bar>H src - H p\<bar>, \<bar>S src - S p\<bar>, \<bar>V src - V p\<bar>)"

definition DistanceRGB :: "Pixel \<Rightarrow> Pixel \<Rightarrow> real" where
  "DistanceRGB p src =
     (let r = real (unat (R src)) - real (unat (R p));
          g = real (unat (G src)) - real (unat (G p));
          b = real (unat (B src)) - real (unat (B p))
      in 0 + r * r + g * g + b * b)"

text \<open>
  \<^verbatim>\<open>Pixel.Shift\<close>; the shift count is a \<^verbatim>\<open>uint\<close>. On a \<^verbatim>\<open>uint8\<close> both shifts stay in
  8 bits, and a count of 8 or more gives 0.
\<close>

definition PixelShift :: "Pixel \<Rightarrow> nat \<Rightarrow> Pixel" where
  "PixelShift p shift =
     (let r = push_bit shift (drop_bit shift (R p));
          g = push_bit shift (drop_bit shift (G p));
          b = push_bit shift (drop_bit shift (B p))
      in NewPixelRGB r g b)"

definition PixelColor :: "Pixel \<Rightarrow> rgba" where
  "PixelColor p = UIntRGBA (R p) (G p) (B p)"

section \<open>Pixels\<close>

text \<open>\<^verbatim>\<open>Pixels.Quantize\<close>; \<^verbatim>\<open>uint(s)\<close> of a negative \<^verbatim>\<open>s\<close> wraps to a count above 8.\<close>

definition Quantize :: "Pixels \<Rightarrow> int \<Rightarrow> error + Pixels" where
  "Quantize p s =
     (if s \<ge> 8 then Inl InvalidParameter
      else let shift = nat (s mod 2 ^ 64)
           in Inr (map (\<lambda>pix. PixelShift pix shift) p))"

text \<open>
  \<^verbatim>\<open>Pixels.Most\<close>. \<^verbatim>\<open>counter[val]++\<close> on a \<^verbatim>\<open>map[int]int\<close> is \<open>count_up\<close>. Go visits
  the keys of a map in an order it does not fix: the order is the parameter \<open>keys\<close>.
  A key of \<open>keys\<close> that the map does not hold is skipped, and visiting a key again
  changes nothing, so every \<open>keys\<close> that covers the map is one of Go's orders.
\<close>

definition count_up :: "(int \<rightharpoonup> int) \<Rightarrow> int \<Rightarrow> (int \<rightharpoonup> int)" where
  "count_up counter val = counter(val \<mapsto> (case counter val of None \<Rightarrow> 0 | Some c \<Rightarrow> c) + 1)"

definition Most :: "int list \<Rightarrow> Pixels \<Rightarrow> Pixel" where
  "Most keys p =
     (let counter = fold (\<lambda>pix counter. count_up counter (Pack pix)) p Map.empty;
          best = fold (\<lambda>key (mx, val).
                   case counter key of
                     None \<Rightarrow> (mx, val)
                   | Some count \<Rightarrow> if count > mx then (count, key) else (mx, val))
                 keys (0, 0)
      in case UnPack (snd best) of (r, g, b) \<Rightarrow> NewPixelRGB r g b)"

text \<open>
  \<^verbatim>\<open>Pixels.Average\<close> returns \<^verbatim>\<open>(NewPixel(c), nil)\<close>: a pixel pointer that \<^verbatim>\<open>NewPixel\<close>
  could leave nil, and an error. A nil slice and an empty one both have length 0.
\<close>

definition Average :: "(u8 \<Rightarrow> u8 \<Rightarrow> u8 \<Rightarrow> u8 \<times> u8 \<times> u8) \<Rightarrow> Pixels \<Rightarrow> error + Pixel option" where
  "Average ycc p =
     (if length p = 0 then Inl EmptyInput
      else let r = fold (\<lambda>d r. r + real (unat (R d))) p 0;
               g = fold (\<lambda>d g. g + real (unat (G d))) p 0;
               b = fold (\<lambda>d b. b + real (unat (B d))) p 0;
               avg = 1 / real (length p);
               c = FloatRGBA (r * avg) (g * avg) (b * avg)
           in Inr (NewPixel ycc (RGBAPointer c)))"

subsection \<open>Raster images\<close>

text \<open>
  \<^verbatim>\<open>image.Image\<close> as the code uses it: its bounds (\<^verbatim>\<open>image.Rectangle\<close>, the corners
  \<^verbatim>\<open>Min\<close> and \<^verbatim>\<open>Max\<close>) and the colour \<^verbatim>\<open>At(x, y)\<close>. \<open>Rect\<close>, \<open>NewRGBA\<close> and \<open>ImageSet\<close>
  are \<^verbatim>\<open>image.Rect\<close>, \<^verbatim>\<open>image.NewRGBA\<close> and \<^verbatim>\<open>(*image.RGBA).Set\<close> of Go's standard library:
  \<^verbatim>\<open>Rect\<close> orders its corners, a new image is transparent black everywhere, and \<^verbatim>\<open>Set\<close>
  ignores a point outside the bounds.
\<close>

record Rectangle =
  MinX :: int
  MinY :: int
  MaxX :: int
  MaxY :: int

record Image =
  Bounds :: Rectangle
  At :: "int \<Rightarrow> int \<Rightarrow> color"

definition Dx :: "Rectangle \<Rightarrow> int" where
  "Dx r = MaxX r - MinX r"

definition Dy :: "Rectangle \<Rightarrow> int" where
  "Dy r = MaxY r - MinY r"

definition Rect :: "int \<Rightarrow> int \<Rightarrow> int \<Rightarrow> int \<Rightarrow> Rectangle" where
  "Rect x0 y0 x1 y1 =
     \<lparr>MinX = (if x0 > x1 then x1 else x0), MinY = (if y0 > y1 then y1 else y0),
      MaxX = (if x0 > x1 then x0 else x1), MaxY = (if y0 > y1 then y0 else y1)\<rparr>"

definition NewRGBA :: "Rectangle \<Rightarrow> Image" where
  "NewRGBA r = \<lparr>Bounds = r, At = (\<lambda>x y. RGBAValue (RGBA 0 0 0 0))\<rparr>"

definition ImageSet :: "Image \<Rightarrow> int \<Rightarrow> int \<Rightarrow> rgba \<Rightarrow> Image" where
  "ImageSet img x y c =
     (if MinX (Bounds img) \<le> x \<and> x < MaxX (Bounds img) \<and>
         MinY (Bounds img) \<le> y \<and> y < MaxY (Bounds img)
      then img\<lparr>At := (At img)(x := (At img x)(y := RGBAValue c))\<rparr>
      else img)"

text \<open>
  \<^verbatim>\<open>Pixels.ToImage\<close>: the two nested loops, with the running index \<^verbatim>\<open>idx\<close>; \<^verbatim>\<open>p[idx]\<close>
  panics beyond the end of the buffer.
\<close>

definition ToImageStep :: "Pixels \<Rightarrow> nat \<Rightarrow> nat \<Rightarrow> error + Image \<times> nat \<Rightarrow> error + Image \<times> nat" where
  "ToImageStep p col row st =
     (case st of
        Inl err \<Rightarrow> Inl err
      | Inr (img, idx) \<Rightarrow>
          if idx < length p
          then Inr (ImageSet img (int col) (int row) (PixelColor (p ! idx)), idx + 1)
          else Inl IndexOutOfRange)"

definition ToImage :: "Pixels \<Rightarrow> int \<Rightarrow> int \<Rightarrow> error + Image" where
  "ToImage p cols rows =
     (case fold (\<lambda>col st. fold (\<lambda>row st. ToImageStep p col row st) [0..<nat rows] st)
             [0..<nat cols] (Inr (NewRGBA (Rect 0 0 cols rows), 0)) of
        Inl err \<Rightarrow> Inl err
      | Inr (img, idx) \<Rightarrow> Inr img)"

text \<open>
  \<^verbatim>\<open>convertPixels\<close>: \<^verbatim>\<open>make(Pixels, cols*rows)\<close> gives nil slots (\<open>None\<close>);
  the loops read \<^verbatim>\<open>img.At(col, row)\<close> from column 0 and row 0 whatever the corner
  \<^verbatim>\<open>Min\<close> of the bounds is, and store what \<^verbatim>\<open>NewPixel\<close> returns. The error returned is
  always nil. When the loops run, \<^verbatim>\<open>idx\<close> stays below \<^verbatim>\<open>cols*rows\<close>.
\<close>

definition convertStep ::
  "(u8 \<Rightarrow> u8 \<Rightarrow> u8 \<Rightarrow> u8 \<times> u8 \<times> u8) \<Rightarrow> Image \<Rightarrow> nat \<Rightarrow> nat
     \<Rightarrow> Pixel option list \<times> nat \<Rightarrow> Pixel option list \<times> nat" where
  "convertStep ycc img col row st =
     (case st of (rtn, idx) \<Rightarrow>
        (rtn[idx := NewPixel ycc (At img (int col) (int row))], idx + 1))"

definition convertPixels :: "(u8 \<Rightarrow> u8 \<Rightarrow> u8 \<Rightarrow> u8 \<times> u8 \<times> u8) \<Rightarrow> Image \<Rightarrow> error + Pixel option list" where
  "convertPixels ycc img =
     (let rect = Bounds img;
          cols = Dx rect;
          rows = Dy rect
      in if cols * rows < 0 then Inl NegativeLength
         else Inr (fst (fold (\<lambda>col st. fold (\<lambda>row st. convertStep ycc img col row st)
                                 [0..<nat rows] st)
                         [0..<nat cols] (replicate (nat (cols * rows)) None, 0))))"

section \<open>The colour reduction (shrink.go)\<close>

definition getForegroundMask :: "Pixels \<Rightarrow> Pixel \<Rightarrow> Option_cfg \<Rightarrow> error + bool list" where
  "getForegroundMask p bg op =
     Inr (map (\<lambda>pix. case DistanceHSV pix bg of
                       (dh, ds, dv) \<Rightarrow> dv \<ge> Brightness op \<or> ds \<ge> Saturation op) p)"

definition getBackgroundColor :: "int list \<Rightarrow> Pixels \<Rightarrow> Option_cfg \<Rightarrow> error + Pixel" where
  "getBackgroundColor keys p op =
     (case Quantize p (Shift op) of
        Inl err \<Rightarrow> Inl err
      | Inr q \<Rightarrow> Inr (Most keys q))"

text \<open>\<^verbatim>\<open>math.MaxFloat64\<close>, \<open>2 ^ 1023 * (2 - 2 ^ -52)\<close>.\<close>

definition MaxFloat64 :: real where
  "MaxFloat64 = (2 ^ 53 - 1) * 2 ^ 971"

text \<open>\<^verbatim>\<open>closest\<close>: the body of its loop on the pair \<^verbatim>\<open>(idx, d)\<close>, then the loop.\<close>

definition closestStep :: "Pixel \<Rightarrow> Pixel list \<Rightarrow> nat \<Rightarrow> int \<times> real \<Rightarrow> int \<times> real" where
  "closestStep p labels i st =
     (case st of (idx, d) \<Rightarrow>
        let val = DistanceRGB p (labels ! i)
        in if val < d then (int i, val) else (idx, d))"

definition closest :: "Pixel \<Rightarrow> Pixel list \<Rightarrow> int" where
  "closest p labels =
     fst (fold (closestStep p labels) [0..<length labels] (- 1, MaxFloat64))"

text \<open>
  The initial centres of \<^verbatim>\<open>kmeans\<close>. For \<^verbatim>\<open>k = 1\<close> the hue \<^verbatim>\<open>float64(0) / float64(0)\<close> is a
  NaN: every comparison with it is false, \<^verbatim>\<open>HSV2RGBA\<close> reaches \<^verbatim>\<open>FloatRGBA(255, 0, NaN)\<close>,
  and the blue channel is \<^verbatim>\<open>uint8(NaN)\<close>, which Go leaves to the implementation: the
  parameter \<open>nan8\<close>.
\<close>

definition initLabels :: "u8 \<Rightarrow> int \<Rightarrow> Pixel list" where
  "initLabels nan8 k =
     map (\<lambda>i. if k - 1 = 0 then NewPixelRGB 255 0 nan8
              else NewPixelHSV (real i / real_of_int (k - 1)) 1 1)
       [0..<nat k]"

text \<open>\<^verbatim>\<open>groups[label] = append(groups[label], pix)\<close>, with the bounds check of the index.\<close>

definition addToGroup :: "Pixels list \<Rightarrow> int \<Rightarrow> Pixel \<Rightarrow> error + Pixels list" where
  "addToGroup groups label pix =
     (if 0 \<le> label \<and> label < int (length groups)
      then Inr (groups[nat label := groups ! nat label @ [pix]])
      else Inl IndexOutOfRange)"

definition groupStep :: "Pixel \<times> int \<Rightarrow> error + Pixels list \<Rightarrow> error + Pixels list" where
  "groupStep e st =
     (case st of
        Inl err \<Rightarrow> Inl err
      | Inr groups \<Rightarrow> addToGroup groups (snd e) (fst e))"

definition makeGroups :: "Pixels \<Rightarrow> int list \<Rightarrow> nat \<Rightarrow> error + Pixels list" where
  "makeGroups p index n = fold groupStep (zip p index) (Inr (replicate n []))"

text \<open>
  The update of the centres:
  \<^verbatim>\<open>if newLabel, err := groups[i].Average(); newLabel != nil && err == nil { labels[i] = newLabel }\<close>.
\<close>

definition updateLabel ::
  "(u8 \<Rightarrow> u8 \<Rightarrow> u8 \<Rightarrow> u8 \<times> u8 \<times> u8) \<Rightarrow> Pixels list \<Rightarrow> nat \<Rightarrow> Pixel list \<Rightarrow> Pixel list" where
  "updateLabel ycc groups i labels =
     (case Average ycc (groups ! i) of
        Inr (Some newLabel) \<Rightarrow> labels[i := newLabel]
      | _ \<Rightarrow> labels)"

definition updateLabels :: "(u8 \<Rightarrow> u8 \<Rightarrow> u8 \<Rightarrow> u8 \<times> u8 \<times> u8) \<Rightarrow> Pixel list \<Rightarrow> Pixels list \<Rightarrow> Pixel list" where
  "updateLabels ycc labels groups = fold (updateLabel ycc groups) [0..<length labels] labels"

text \<open>
  One round of the loop of \<^verbatim>\<open>kmeans\<close>: the groups, the new centres, the new assignment
  and the number of points whose assignment changed.
\<close>

definition kmeansRound ::
  "(u8 \<Rightarrow> u8 \<Rightarrow> u8 \<Rightarrow> u8 \<times> u8 \<times> u8) \<Rightarrow> Pixels \<Rightarrow> Pixel list \<Rightarrow> int list
     \<Rightarrow> error + Pixel list \<times> int list \<times> nat" where
  "kmeansRound ycc p labels index =
     (case makeGroups p index (length labels) of
        Inl err \<Rightarrow> Inl err
      | Inr groups \<Rightarrow>
          let labels' = updateLabels ycc labels groups;
              index' = map (\<lambda>pix. closest pix labels') p;
              changes = length (filter (\<lambda>(newIdx, oldIdx). newIdx \<noteq> oldIdx) (zip index' index))
          in Inr (labels', index', changes))"

fun kmeansLoop ::
  "(u8 \<Rightarrow> u8 \<Rightarrow> u8 \<Rightarrow> u8 \<times> u8 \<times> u8) \<Rightarrow> nat \<Rightarrow> Pixels \<Rightarrow> Pixel list \<Rightarrow> int list
     \<Rightarrow> error + Pixel list" where
  "kmeansLoop ycc 0 p labels index = Inr labels"
| "kmeansLoop ycc (Suc n) p labels index =
     (case kmeansRound ycc p labels index of
        Inl err \<Rightarrow> Inl err
      | Inr (labels', index', changes) \<Rightarrow>
          if changes = 0 then Inr labels' else kmeansLoop ycc n p labels' index')"

text \<open>\<^verbatim>\<open>kmeans\<close> after its centres are initialised: the first assignment and the loop.\<close>

definition kmeansFrom ::
  "(u8 \<Rightarrow> u8 \<Rightarrow> u8 \<Rightarrow> u8 \<times> u8 \<times> u8) \<Rightarrow> Pixel list \<Rightarrow> Pixels \<Rightarrow> int \<Rightarrow> error + Pixel list" where
  "kmeansFrom ycc labels p itr =
     kmeansLoop ycc (nat itr) p labels (map (\<lambda>pix. closest pix labels) p)"

definition kmeans ::
  "(u8 \<Rightarrow> u8 \<Rightarrow> u8 \<Rightarrow> u8 \<times> u8 \<times> u8) \<Rightarrow> u8 \<Rightarrow> Pixels \<Rightarrow> Option_cfg \<Rightarrow> error + Pixel list" where
  "kmeans ycc nan8 p op =
     (let k = ForegroundNum op - 1;
          itr = KMeansIterations op
      in if k < 0 then Inl NegativeLength
         else kmeansFrom ycc (initLabels nan8 k) p itr)"

text \<open>
  \<^verbatim>\<open>apply\<close>: the pixel written to slot \<^verbatim>\<open>idx\<close>, then the loop over all slots.
  \<^verbatim>\<open>labels[wk]\<close> panics when \<^verbatim>\<open>closest\<close> returned \<open>-1\<close>.
\<close>

definition applyPixel :: "Pixels \<Rightarrow> Pixel \<Rightarrow> Pixel list \<Rightarrow> bool list \<Rightarrow> nat \<Rightarrow> error + Pixel" where
  "applyPixel data bg labels flag idx =
     (if flag ! idx
      then let wk = closest (data ! idx) labels
           in if 0 \<le> wk \<and> wk < int (length labels) then Inr (labels ! nat wk)
              else Inl IndexOutOfRange
      else Inr bg)"

definition applyStep ::
  "Pixels \<Rightarrow> Pixel \<Rightarrow> Pixel list \<Rightarrow> bool list \<Rightarrow> nat \<Rightarrow> error + Pixels \<Rightarrow> error + Pixels" where
  "applyStep data bg labels flag idx st =
     (case st of
        Inl err \<Rightarrow> Inl err
      | Inr rtn \<Rightarrow>
          (case applyPixel data bg labels flag idx of
             Inl err \<Rightarrow> Inl err
           | Inr newPix \<Rightarrow> Inr (rtn @ [newPix])))"

definition apply_palette :: "Pixels \<Rightarrow> Pixel \<Rightarrow> Pixel list \<Rightarrow> Option_cfg \<Rightarrow> error + Pixels" where
  "apply_palette data bg labels op =
     (case getForegroundMask data bg op of
        Inl err \<Rightarrow> Inl err
      | Inr flag \<Rightarrow> fold (applyStep data bg labels flag) [0..<length data] (Inr []))"

section \<open>Notions used to state the properties\<close>


text \<open>
  For the examples: a stand-in for \<^verbatim>\<open>color.YCbCrToRGB\<close> (no example holds a YCbCr
  colour), the colour and the bounds of an image that may have failed to be built,
  and four small images: one translucent pixel; one pixel at \<open>(1, 0)\<close> in bounds that do
  not start at the origin; one grey pixel; and two columns of two opaque pixels.
\<close>

definition ycc0 :: "u8 \<Rightarrow> u8 \<Rightarrow> u8 \<Rightarrow> u8 \<times> u8 \<times> u8" where
  "ycc0 y cb cr = (y, cb, cr)"

definition ImageAt :: "error + Image \<Rightarrow> int \<Rightarrow> int \<Rightarrow> error + color" where
  "ImageAt r x y = (case r of Inl err \<Rightarrow> Inl err | Inr img \<Rightarrow> Inr (At img x y))"

definition ImageBounds :: "error + Image \<Rightarrow> error + Rectangle" where
  "ImageBounds r = (case r of Inl err \<Rightarrow> Inl err | Inr img \<Rightarrow> Inr (Bounds img))"

definition translucentImage :: Image where
  "translucentImage = \<lparr>Bounds = Rect 0 0 1 1, At = (\<lambda>x y. RGBAValue (RGBA 10 20 30 128))\<rparr>"

definition offsetImage :: Image where
  "offsetImage =
     \<lparr>Bounds = Rect 1 0 2 1,
      At = (\<lambda>x y. if x = 1 \<and> y = 0 then RGBAValue (RGBA 10 20 30 255)
                   else RGBAValue (RGBA 0 0 0 0))\<rparr>"

definition grayImage :: Image where
  "grayImage = \<lparr>Bounds = Rect 0 0 1 1, At = (\<lambda>x y. Gray 128)\<rparr>"

definition exampleImage :: Image where
  "exampleImage =
     \<lparr>Bounds = Rect 0 0 2 2,
      At = (\<lambda>x y. RGBAValue (RGBA (word_of_int x) (word_of_int y) 7 255))\<rparr>"

section \<open>Quantization\<close>

lemma shift_clears_low: "push_bit n (drop_bit n (w :: u8)) = w AND NOT (mask n)"
  by (rule bit_word_eqI) (auto simp: bit_simps)

lemma NewPixelRGB_channels [simp]:
  "R (NewPixelRGB r g b) = r" "G (NewPixelRGB r g b) = g" "B (NewPixelRGB r g b) = b"
  by (simp_all add: NewPixelRGB_def split: prod.splits)

lemma PixelShift_channels:
  "R (PixelShift p n) = push_bit n (drop_bit n (R p))"
  "G (PixelShift p n) = push_bit n (drop_bit n (G p))"
  "B (PixelShift p n) = push_bit n (drop_bit n (B p))"
  by (simp_all add: PixelShift_def Let_def)

lemma PixelShift_idem: "PixelShift (PixelShift p n) n = PixelShift p n"
  by (simp add: PixelShift_def Let_def shift_clears_low)

text \<open>
  C5. \<^verbatim>\<open>Quantize\<close> returns the InvalidParameter error for every shift of 8 or more. For
  every shift from 0 to 7 it succeeds with a buffer of the same length, in which every
  channel of every element is the old channel shifted right and left again by the
  shift, that is, the old channel with its low \<open>shift\<close> bits cleared.
\<close>

theorem Quantize_shift_range:
  "(8 \<le> s \<longrightarrow> Quantize p s = Inl InvalidParameter) \<and>
   (0 \<le> s \<and> s < 8 \<longrightarrow>
      (\<exists>q. Quantize p s = Inr q \<and> length q = length p \<and>
           (\<forall>i < length p.
              R (q ! i) = push_bit (nat s) (drop_bit (nat s) (R (p ! i))) \<and>
              G (q ! i) = push_bit (nat s) (drop_bit (nat s) (G (p ! i))) \<and>
              B (q ! i) = push_bit (nat s) (drop_bit (nat s) (B (p ! i))) \<and>
              R (q ! i) = R (p ! i) AND NOT (mask (nat s)) \<and>
              G (q ! i) = G (p ! i) AND NOT (mask (nat s)) \<and>
              B (q ! i) = B (p ! i) AND NOT (mask (nat s)))))"
proof (intro conjI impI)
  assume "8 \<le> s"
  then show "Quantize p s = Inl InvalidParameter"
    by (simp add: Quantize_def)
next
  assume s: "0 \<le> s \<and> s < 8"
  then have q: "Quantize p s = Inr (map (\<lambda>pix. PixelShift pix (nat s)) p)"
    by (simp add: Quantize_def Let_def)
  show "\<exists>q. Quantize p s = Inr q \<and> length q = length p \<and>
           (\<forall>i < length p.
              R (q ! i) = push_bit (nat s) (drop_bit (nat s) (R (p ! i))) \<and>
              G (q ! i) = push_bit (nat s) (drop_bit (nat s) (G (p ! i))) \<and>
              B (q ! i) = push_bit (nat s) (drop_bit (nat s) (B (p ! i))) \<and>
              R (q ! i) = R (p ! i) AND NOT (mask (nat s)) \<and>
              G (q ! i) = G (p ! i) AND NOT (mask (nat s)) \<and>
              B (q ! i) = B (p ! i) AND NOT (mask (nat s)))"
    unfolding q by (simp add: PixelShift_channels shift_clears_low)
qed

theorem Quantize_shift_range_witness:
  "Quantize [NewPixelRGB 255 130 7] 8 = Inl InvalidParameter \<and>
   Quantize [NewPixelRGB 255 130 7] 9 = Inl InvalidParameter \<and>
   (\<exists>q. Quantize [NewPixelRGB 255 130 7] 2 = Inr q \<and> length q = 1 \<and>
        R (q ! 0) = 252 \<and> G (q ! 0) = 128 \<and> B (q ! 0) = 4)"
  using Quantize_shift_range [of 8 "[NewPixelRGB 255 130 7]"]
        Quantize_shift_range [of 9 "[NewPixelRGB 255 130 7]"]
        Quantize_shift_range [of 2 "[NewPixelRGB 255 130 7]"]
  by auto

text \<open>
  C9. For every buffer and every shift from 0 to 7, \<^verbatim>\<open>Quantize\<close> succeeds, and
  quantizing its result again at the same shift returns that result unchanged.
\<close>

theorem Quantize_idempotent:
  assumes "0 \<le> s" and "s < 8"
  shows "\<exists>q. Quantize p s = Inr q \<and> Quantize q s = Inr q"
  using assms by (simp add: Quantize_def Let_def PixelShift_idem)

theorem Quantize_idempotent_witness:
  "(0::int) \<le> 2 \<and> (2::int) < 8 \<and>
   (\<exists>q. Quantize [NewPixelRGB 255 130 7] 2 = Inr q \<and> Quantize q 2 = Inr q)"
  using Quantize_idempotent [of 2 "[NewPixelRGB 255 130 7]"] by simp

section \<open>Average and majority of a buffer\<close>

lemma trunc_of_int [simp]: "trunc_toward_zero (of_int k) = k"
  by (simp add: trunc_toward_zero_def)

lemma FloatChannel_of_int: "FloatChannel (of_int k) = word_of_int k"
proof -
  have "\<lfloor>real_of_int k + 0.5\<rfloor> = k"
    by linarith
  then show ?thesis
    by (simp add: FloatChannel_def uint8_of_float_def)
qed

lemma FloatChannel_of_u8: "FloatChannel (unsigned (w :: u8)) = w"
  using FloatChannel_of_int [of "uint w"] by simp

lemma NewPixel_RGBAPointer:
  "NewPixel ycc (RGBAPointer c) = Some (NewPixelRGB (rgbaR c) (rgbaG c) (rgbaB c))"
  by (simp add: NewPixel_def convertColor_def)

text \<open>
  C7. \<^verbatim>\<open>Average\<close> of a buffer with exactly one element returns, without error, a pixel
  with the R, G and B channels of that element (the pixel \<^verbatim>\<open>NewPixelRGB\<close> builds from
  them); \<^verbatim>\<open>Average\<close> of a buffer with no element fails with the EmptyInput error.
  With one element the mean is \<open>R * (1 / 1)\<close> and the rounding is \<open>\<lfloor>R + 0.5\<rfloor>\<close> on a
  whole number below 255: each of these operations is exact in \<^verbatim>\<open>float64\<close> as well.
\<close>

theorem Average_single_and_empty:
  "Average ycc [x] = Inr (Some (NewPixelRGB (R x) (G x) (B x))) \<and>
   R (NewPixelRGB (R x) (G x) (B x)) = R x \<and>
   G (NewPixelRGB (R x) (G x) (B x)) = G x \<and>
   B (NewPixelRGB (R x) (G x) (B x)) = B x \<and>
   Average ycc [] = Inl EmptyInput"
  by (simp add: Average_def Let_def FloatRGBA_def UIntRGBA_def FloatChannel_of_u8
      NewPixel_RGBAPointer)

lemma UnPack_zero: "UnPack 0 = (0, 0, 0)"
  by (simp add: UnPack_def)

lemma Most_empty: "Most keys [] = NewPixelRGB 0 0 0"
  by (simp add: Most_def fold_id UnPack_zero)

text \<open>
  C10. \<^verbatim>\<open>Most\<close> of an empty buffer does not fail: whatever the order of the map
  iteration, it returns the black pixel, R = G = B = 0. So \<^verbatim>\<open>getBackgroundColor\<close> on an
  empty sample, with a shift that \<^verbatim>\<open>Quantize\<close> accepts, returns black and no error.
\<close>

theorem Most_empty_black:
  "Most keys [] = NewPixelRGB 0 0 0 \<and>
   R (Most keys []) = 0 \<and> G (Most keys []) = 0 \<and> B (Most keys []) = 0 \<and>
   (Shift op < 8 \<longrightarrow> getBackgroundColor keys [] op = Inr (NewPixelRGB 0 0 0))"
  by (simp add: Most_empty getBackgroundColor_def Quantize_def)

theorem Most_empty_black_witness:
  "Shift DefaultOption < 8 \<and> getBackgroundColor [] [] DefaultOption = Inr (NewPixelRGB 0 0 0)"
  using Most_empty_black [of "[]" DefaultOption] by (simp add: DefaultOption_def)

section \<open>Foreground classification\<close>

lemma HSV_white: "V (NewPixelRGB 255 255 255) = 1" "S (NewPixelRGB 255 255 255) = 0"
  by (simp_all add: NewPixelRGB_def RGB2HSV_def Let_def)

lemma HSV_black: "V (NewPixelRGB 0 0 0) = 0" "S (NewPixelRGB 0 0 0) = 0"
  by (simp_all add: NewPixelRGB_def RGB2HSV_def Let_def)



section \<open>The nearest centre\<close>

lemma unat_u8_le: "unat (w :: u8) \<le> 255"
  using unsigned_less [of w, where ?'a = nat] by simp

lemma sq_diff_bound:
  fixes a b :: real
  assumes "0 \<le> a" "a \<le> 255" "0 \<le> b" "b \<le> 255"
  shows "(a - b) * (a - b) \<le> 65025"
proof -
  have "\<bar>a - b\<bar> \<le> 255" using assms by linarith
  then have "\<bar>a - b\<bar> * \<bar>a - b\<bar> \<le> 255 * 255"
    by (intro mult_mono) simp_all
  then show ?thesis by simp
qed

lemma DistanceRGB_le: "DistanceRGB p q \<le> 195075"
proof -
  have u: "0 \<le> real (unat w) \<and> real (unat w) \<le> 255" for w :: u8
  proof
    show "0 \<le> real (unat w)"
      by (rule of_nat_0_le_iff)
    have "real (unat w) \<le> real 255"
      using unat_u8_le [of w] by (simp only: of_nat_le_iff)
    also have "real 255 = 255"
      by simp
    finally show "real (unat w) \<le> 255" .
  qed
  have "(real (unat (R q)) - real (unat (R p))) * (real (unat (R q)) - real (unat (R p))) \<le> 65025"
       "(real (unat (G q)) - real (unat (G p))) * (real (unat (G q)) - real (unat (G p))) \<le> 65025"
       "(real (unat (B q)) - real (unat (B p))) * (real (unat (B q)) - real (unat (B p))) \<le> 65025"
    using u by (simp_all only: sq_diff_bound)
  then show ?thesis
    unfolding DistanceRGB_def Let_def by linarith
qed

lemma DistanceRGB_lt_MaxFloat64: "DistanceRGB p q < MaxFloat64"
proof -
  have "(195075::real) < MaxFloat64"
    by (simp add: MaxFloat64_def)
  with DistanceRGB_le [of p q] show ?thesis by linarith
qed

lemma closest_fold:
  assumes "fold (closestStep p labels) [0..<n] (- 1, MaxFloat64) = (idx, d)"
  shows "(n = 0 \<longrightarrow> idx = - 1 \<and> d = MaxFloat64) \<and>
         (0 < n \<longrightarrow> 0 \<le> idx \<and> idx < int n \<and> d = DistanceRGB p (labels ! nat idx) \<and>
                   (\<forall>j < n. d \<le> DistanceRGB p (labels ! j)) \<and>
                   (\<forall>j < nat idx. d < DistanceRGB p (labels ! j)))"
  using assms
proof (induction n arbitrary: idx d)
  case 0
  then show ?case by simp
next
  case (Suc n)
  obtain idx0 d0 where st: "fold (closestStep p labels) [0..<n] (- 1, MaxFloat64) = (idx0, d0)"
    by (cases "fold (closestStep p labels) [0..<n] (- 1, MaxFloat64)")
  note ih = Suc.IH [OF st]
  from Suc.prems st have step: "closestStep p labels n (idx0, d0) = (idx, d)"
    by simp
  show ?case
  proof (cases "n = 0")
    case True
    with ih have "d0 = MaxFloat64" by simp
    with step DistanceRGB_lt_MaxFloat64 [of p "labels ! n"] True
    show ?thesis
      by (auto simp: closestStep_def Let_def split: if_splits)
  next
    case False
    with ih have a: "0 \<le> idx0" "idx0 < int n" "d0 = DistanceRGB p (labels ! nat idx0)"
      "\<forall>j < n. d0 \<le> DistanceRGB p (labels ! j)"
      "\<forall>j < nat idx0. d0 < DistanceRGB p (labels ! j)"
      by blast+
    show ?thesis
    proof (cases "DistanceRGB p (labels ! n) < d0")
      case True
      with step have e: "idx = int n" "d = DistanceRGB p (labels ! n)"
        by (simp_all add: closestStep_def Let_def)
      from a(4) True have "\<forall>j < n. d < DistanceRGB p (labels ! j)"
        unfolding e by fastforce
      then show ?thesis
        using e by (auto simp: less_Suc_eq intro: less_imp_le)
    next
      case False
      with step have e: "idx = idx0" "d = d0"
        by (simp_all add: closestStep_def Let_def)
      show ?thesis
        using a False unfolding e by (auto simp: less_Suc_eq)
    qed
  qed
qed

lemma closest_empty: "closest p [] = - 1"
  by (simp add: closest_def)

lemma closest_nonempty:
  assumes "labels \<noteq> []"
  shows "0 \<le> closest p labels" "closest p labels < int (length labels)"
    "\<forall>j < length labels.
       DistanceRGB p (labels ! nat (closest p labels)) \<le> DistanceRGB p (labels ! j)"
    "\<forall>j < nat (closest p labels).
       DistanceRGB p (labels ! nat (closest p labels)) < DistanceRGB p (labels ! j)"
proof -
  obtain idx d where st:
    "fold (closestStep p labels) [0..<length labels] (- 1, MaxFloat64) = (idx, d)"
    by (cases "fold (closestStep p labels) [0..<length labels] (- 1, MaxFloat64)")
  then have c: "closest p labels = idx"
    by (simp add: closest_def)
  from assms have "0 < length labels" by simp
  with closest_fold [OF st] show
    "0 \<le> closest p labels" "closest p labels < int (length labels)"
    "\<forall>j < length labels.
       DistanceRGB p (labels ! nat (closest p labels)) \<le> DistanceRGB p (labels ! j)"
    "\<forall>j < nat (closest p labels).
       DistanceRGB p (labels ! nat (closest p labels)) < DistanceRGB p (labels ! j)"
    unfolding c by blast+
qed

section \<open>The rounds of k-means\<close>

lemma fold_groupStep_Inl: "fold groupStep es (Inl err) = Inl err"
  by (induction es) (simp_all add: groupStep_def)


lemma updateLabel_length [simp]: "length (updateLabel ycc groups i ls) = length ls"
  by (simp add: updateLabel_def split: sum.splits option.splits)


lemma updateLabels_fold_length [simp]:
  "length (fold (updateLabel ycc groups) [0..<n] labels) = length labels"
  by (induction n) simp_all





lemma updateLabels_length: "length (updateLabels ycc labels groups) = length labels"
  by (simp add: updateLabels_def)












section \<open>Applying the palette\<close>

lemma kmeansRound_length:
  assumes "kmeansRound ycc p labels index = Inr (labels', index', changes)"
  shows "length labels' = length labels"
  using assms by (auto simp: kmeansRound_def Let_def updateLabels_length split: sum.splits)

lemma kmeansLoop_length:
  assumes "kmeansLoop ycc n p labels index = Inr out"
  shows "length out = length labels"
  using assms
proof (induction n arbitrary: labels index)
  case 0
  then show ?case by simp
next
  case (Suc n)
  from Suc.prems obtain labels' index' changes where
    r: "kmeansRound ycc p labels index = Inr (labels', index', changes)"
    by (auto split: sum.splits)
  show ?case
  proof (cases "changes = 0")
    case True
    with Suc.prems r kmeansRound_length [OF r] show ?thesis by simp
  next
    case False
    with Suc.prems r have "kmeansLoop ycc n p labels' index' = Inr out" by simp
    from Suc.IH [OF this] kmeansRound_length [OF r] show ?thesis by simp
  qed
qed

lemma kmeans_length:
  assumes "kmeans ycc nan8 p op = Inr labels"
  shows "int (length labels) = ForegroundNum op - 1"
proof -
  from assms have k: "0 \<le> ForegroundNum op - 1"
    by (auto simp: kmeans_def Let_def split: if_splits)
  with assms have "kmeansLoop ycc (nat (KMeansIterations op)) p
      (initLabels nan8 (ForegroundNum op - 1))
      (map (\<lambda>pix. closest pix (initLabels nan8 (ForegroundNum op - 1))) p) = Inr labels"
    by (simp add: kmeans_def Let_def kmeansFrom_def)
  from kmeansLoop_length [OF this] k show ?thesis
    by (simp add: initLabels_def)
qed

lemma applyPixel_nonempty:
  assumes "labels \<noteq> []"
  shows "applyPixel data bg labels flag i =
         Inr (if flag ! i then labels ! nat (closest (data ! i) labels) else bg)"
  using closest_nonempty(1,2) [OF assms, of "data ! i"]
  by (simp add: applyPixel_def Let_def)

lemma applyStep_nonempty:
  assumes "labels \<noteq> []"
  shows "applyStep data bg labels flag i (Inr rtn) =
         Inr (rtn @ [if flag ! i then labels ! nat (closest (data ! i) labels) else bg])"
  by (simp add: applyStep_def applyPixel_nonempty [OF assms])

lemma apply_fold_nonempty:
  assumes "labels \<noteq> []"
  shows "fold (applyStep data bg labels flag) [0..<n] (Inr []) =
         Inr (map (\<lambda>i. if flag ! i then labels ! nat (closest (data ! i) labels) else bg) [0..<n])"
  by (induction n) (simp_all add: applyStep_nonempty [OF assms])

text \<open>
  C1, amended. For every buffer, background colour and non-empty palette, \<^verbatim>\<open>apply\<close>
  succeeds with one output pixel per input pixel. Where the mask of
  \<^verbatim>\<open>getForegroundMask\<close> is false the output pixel is the background colour; where it is
  true the output pixel is a centre of the palette whose \<^verbatim>\<open>DistanceRGB\<close> to the input
  pixel is minimal. Every output pixel is the background colour or a centre, so the
  output holds at most one colour more than the palette has centres, and at most
  \<^verbatim>\<open>ForegroundNum\<close> colours when the palette is one that \<^verbatim>\<open>kmeans\<close> returned.
\<close>

theorem apply_palette_nonempty:
  assumes "labels \<noteq> []"
  shows "\<exists>flag out.
           getForegroundMask data bg op = Inr flag \<and>
           apply_palette data bg labels op = Inr out \<and>
           length out = length data \<and>
           (\<forall>i < length data.
              (\<not> flag ! i \<longrightarrow> out ! i = bg) \<and>
              (flag ! i \<longrightarrow>
                 (\<exists>j < length labels. out ! i = labels ! j \<and>
                    (\<forall>k < length labels.
                       DistanceRGB (data ! i) (labels ! j) \<le> DistanceRGB (data ! i) (labels ! k))))) \<and>
           set out \<subseteq> insert bg (set labels) \<and>
           card (set out) \<le> length labels + 1 \<and>
           (\<forall>ycc nan8 sample. kmeans ycc nan8 sample op = Inr labels \<longrightarrow>
              int (card (set out)) \<le> ForegroundNum op)"
proof -
  obtain flag where flag: "getForegroundMask data bg op = Inr flag"
    by (simp add: getForegroundMask_def)
  let ?pix = "\<lambda>i. if flag ! i then labels ! nat (closest (data ! i) labels) else bg"
  let ?out = "map ?pix [0..<length data]"
  have out: "apply_palette data bg labels op = Inr ?out"
    by (simp add: apply_palette_def flag apply_fold_nonempty [OF assms])
  have len: "length ?out = length data"
    by simp
  have each: "(\<not> flag ! i \<longrightarrow> ?out ! i = bg) \<and>
              (flag ! i \<longrightarrow>
                 (\<exists>j < length labels. ?out ! i = labels ! j \<and>
                    (\<forall>k < length labels.
                       DistanceRGB (data ! i) (labels ! j) \<le> DistanceRGB (data ! i) (labels ! k))))"
    if i: "i < length data" for i
  proof (intro conjI impI)
    assume "\<not> flag ! i"
    with i show "?out ! i = bg" by simp
  next
    assume f: "flag ! i"
    let ?j = "nat (closest (data ! i) labels)"
    from closest_nonempty [OF assms, of "data ! i"] have
      "?j < length labels"
      "\<forall>k < length labels.
         DistanceRGB (data ! i) (labels ! ?j) \<le> DistanceRGB (data ! i) (labels ! k)"
      by simp_all
    moreover from i f have "?out ! i = labels ! ?j" by simp
    ultimately show "\<exists>j < length labels. ?out ! i = labels ! j \<and>
                    (\<forall>k < length labels.
                       DistanceRGB (data ! i) (labels ! j) \<le> DistanceRGB (data ! i) (labels ! k))"
      by blast
  qed
  have sub: "set ?out \<subseteq> insert bg (set labels)"
  proof
    fix x assume "x \<in> set ?out"
    then obtain i where i: "i < length data" "x = ?pix i"
      by auto
    from closest_nonempty(1,2) [OF assms, of "data ! i"]
    have "labels ! nat (closest (data ! i) labels) \<in> set labels"
      by simp
    with i show "x \<in> insert bg (set labels)"
      by simp
  qed
  have "card (set ?out) \<le> card (insert bg (set labels))"
    by (rule card_mono [OF _ sub]) simp
  also have "\<dots> \<le> card (set labels) + 1"
    by (simp add: card_insert_if)
  also have "\<dots> \<le> length labels + 1"
    by (simp add: card_length)
  finally have card: "card (set ?out) \<le> length labels + 1" .
  have fg: "int (card (set ?out)) \<le> ForegroundNum op"
    if "kmeans ycc nan8 sample op = Inr labels" for ycc nan8 sample
    using kmeans_length [OF that] card by simp
  from flag out len each sub card fg show ?thesis
    by blast
qed

lemma kmeans_no_centres:
  "kmeans ycc nan8 [] (DefaultOption\<lparr>ForegroundNum := 1\<rparr>) = Inr []"
  by (simp add: kmeans_def kmeansFrom_def DefaultOption_def initLabels_def
      kmeansRound_def makeGroups_def updateLabels_def eval_nat_numeral)

text \<open>
  The claim as stated, for every palette, fails on the empty palette, which \<^verbatim>\<open>kmeans\<close>
  returns for \<^verbatim>\<open>ForegroundNum = 1\<close>: a white pixel against a black background is
  foreground, \<^verbatim>\<open>closest\<close> returns \<open>-1\<close>, and \<^verbatim>\<open>labels[-1]\<close> panics.
\<close>

theorem apply_palette_empty_palette_counterexample:
  "kmeans ycc0 0 [] (DefaultOption\<lparr>ForegroundNum := 1\<rparr>) = Inr [] \<and>
   getForegroundMask [NewPixelRGB 255 255 255] (NewPixelRGB 0 0 0)
     (DefaultOption\<lparr>ForegroundNum := 1\<rparr>) = Inr [True] \<and>
   apply_palette [NewPixelRGB 255 255 255] (NewPixelRGB 0 0 0) []
     (DefaultOption\<lparr>ForegroundNum := 1\<rparr>) = Inl IndexOutOfRange"
proof (intro conjI)
  show "kmeans ycc0 0 [] (DefaultOption\<lparr>ForegroundNum := 1\<rparr>) = Inr []"
    by (rule kmeans_no_centres)
  show m: "getForegroundMask [NewPixelRGB 255 255 255] (NewPixelRGB 0 0 0)
     (DefaultOption\<lparr>ForegroundNum := 1\<rparr>) = Inr [True]"
    by (simp add: getForegroundMask_def DistanceHSV_def HSV_white HSV_black DefaultOption_def)
  show "apply_palette [NewPixelRGB 255 255 255] (NewPixelRGB 0 0 0) []
     (DefaultOption\<lparr>ForegroundNum := 1\<rparr>) = Inl IndexOutOfRange"
    by (simp add: apply_palette_def m applyStep_def applyPixel_def closest_empty)
qed

text \<open>A white and a black pixel, a black background and the palette of pure red.\<close>

theorem apply_palette_nonempty_witness:
  "[NewPixelRGB 255 0 0] \<noteq> [] \<and>
   apply_palette [NewPixelRGB 255 255 255, NewPixelRGB 0 0 0] (NewPixelRGB 0 0 0)
     [NewPixelRGB 255 0 0] DefaultOption = Inr [NewPixelRGB 255 0 0, NewPixelRGB 0 0 0]"
proof -
  from apply_palette_nonempty [of "[NewPixelRGB 255 0 0]"
      "[NewPixelRGB 255 255 255, NewPixelRGB 0 0 0]" "NewPixelRGB 0 0 0" DefaultOption]
  obtain flag out where o:
    "getForegroundMask [NewPixelRGB 255 255 255, NewPixelRGB 0 0 0] (NewPixelRGB 0 0 0)
       DefaultOption = Inr flag"
    "apply_palette [NewPixelRGB 255 255 255, NewPixelRGB 0 0 0] (NewPixelRGB 0 0 0)
       [NewPixelRGB 255 0 0] DefaultOption = Inr out"
    "length out = length [NewPixelRGB 255 255 255, NewPixelRGB 0 0 0]"
    "\<forall>i < length [NewPixelRGB 255 255 255, NewPixelRGB 0 0 0].
       (\<not> flag ! i \<longrightarrow> out ! i = NewPixelRGB 0 0 0) \<and>
       (flag ! i \<longrightarrow> (\<exists>j < length [NewPixelRGB 255 0 0]. out ! i = [NewPixelRGB 255 0 0] ! j \<and>
          (\<forall>k < length [NewPixelRGB 255 0 0].
             DistanceRGB ([NewPixelRGB 255 255 255, NewPixelRGB 0 0 0] ! i) ([NewPixelRGB 255 0 0] ! j)
             \<le> DistanceRGB ([NewPixelRGB 255 255 255, NewPixelRGB 0 0 0] ! i) ([NewPixelRGB 255 0 0] ! k))))"
    by blast
  from o(1) have flag: "flag = [True, False]"
    by (simp add: getForegroundMask_def DistanceHSV_def HSV_white HSV_black DefaultOption_def)
  from o(4) have "out ! 0 = NewPixelRGB 255 0 0" "out ! 1 = NewPixelRGB 0 0 0"
    by (simp_all add: flag)
  with o(3) have "out = [NewPixelRGB 255 0 0, NewPixelRGB 0 0 0]"
    by (simp add: list_eq_iff_nth_eq less_Suc_eq numeral_2_eq_2)
  with o(2) show ?thesis by simp
qed

section \<open>From an image to a buffer and back\<close>

lemma convertStep_pair:
  "convertStep ycc img col row (rtn, idx) =
   (rtn[idx := NewPixel ycc (At img (int col) (int row))], idx + 1)"
  by (simp add: convertStep_def)

lemma convert_inner:
  assumes "fold (convertStep ycc img col) [0..<m] (rtn, idx) = (rtn', idx')"
  shows "idx' = idx + m \<and> length rtn' = length rtn \<and>
         (\<forall>k < length rtn.
            rtn' ! k = (if idx \<le> k \<and> k < idx + m
                        then NewPixel ycc (At img (int col) (int (k - idx)))
                        else rtn ! k))"
  using assms
proof (induction m arbitrary: rtn' idx')
  case 0
  then show ?case by auto
next
  case (Suc m)
  obtain r1 i1 where st: "fold (convertStep ycc img col) [0..<m] (rtn, idx) = (r1, i1)"
    by (cases "fold (convertStep ycc img col) [0..<m] (rtn, idx)")
  from Suc.IH [OF st] have ih: "i1 = idx + m" "length r1 = length rtn"
    "\<forall>k < length rtn.
       r1 ! k = (if idx \<le> k \<and> k < idx + m
                 then NewPixel ycc (At img (int col) (int (k - idx)))
                 else rtn ! k)"
    by blast+
  from Suc.prems st have "convertStep ycc img col m (r1, i1) = (rtn', idx')"
    by simp
  then have e: "rtn' = r1[i1 := NewPixel ycc (At img (int col) (int m))]"
    "idx' = i1 + 1"
    by (simp_all add: convertStep_pair)
  have "rtn' ! k = (if idx \<le> k \<and> k < idx + Suc m
                    then NewPixel ycc (At img (int col) (int (k - idx)))
                    else rtn ! k)" if k: "k < length rtn" for k
  proof (cases "k = idx + m")
    case True
    with k ih(1,2) show ?thesis
      unfolding e by simp
  next
    case False
    with k ih show ?thesis
      unfolding e by (simp add: less_Suc_eq)
  qed
  with e ih(1,2) show ?case by simp
qed

lemma block_div_mod:
  fixes c rows k :: nat
  assumes "c * rows \<le> k" "k < c * rows + rows"
  shows "k div rows = c" "k mod rows = k - c * rows"
proof -
  from assms have r: "0 < rows" by (cases rows) simp_all
  define j where "j = k - c * rows"
  with assms have k: "k = j + c * rows" and j: "j < rows" by simp_all
  show "k div rows = c" unfolding k using j r by simp
  show "k mod rows = k - c * rows" unfolding k using j by simp
qed

lemma convert_outer:
  assumes "fold (\<lambda>col st. fold (convertStep ycc img col) [0..<rows] st) [0..<c] (rtn, 0) = (rtn', idx')"
  shows "idx' = c * rows \<and> length rtn' = length rtn \<and>
         (\<forall>k < length rtn.
            rtn' ! k = (if k < c * rows
                        then NewPixel ycc (At img (int (k div rows)) (int (k mod rows)))
                        else rtn ! k))"
  using assms
proof (induction c arbitrary: rtn' idx')
  case 0
  then show ?case by auto
next
  case (Suc c)
  obtain r1 i1 where st:
    "fold (\<lambda>col st. fold (convertStep ycc img col) [0..<rows] st) [0..<c] (rtn, 0) = (r1, i1)"
    by (cases "fold (\<lambda>col st. fold (convertStep ycc img col) [0..<rows] st) [0..<c] (rtn, 0)")
  from Suc.IH [OF st] have ih: "i1 = c * rows" "length r1 = length rtn"
    "\<forall>k < length rtn.
       r1 ! k = (if k < c * rows
                 then NewPixel ycc (At img (int (k div rows)) (int (k mod rows)))
                 else rtn ! k)"
    by blast+
  from Suc.prems st have "fold (convertStep ycc img c) [0..<rows] (r1, i1) = (rtn', idx')"
    by simp
  from convert_inner [OF this] have inner: "idx' = i1 + rows" "length rtn' = length r1"
    "\<forall>k < length r1.
       rtn' ! k = (if i1 \<le> k \<and> k < i1 + rows
                   then NewPixel ycc (At img (int c) (int (k - i1)))
                   else r1 ! k)"
    by blast+
  have "rtn' ! k = (if k < Suc c * rows
                    then NewPixel ycc (At img (int (k div rows)) (int (k mod rows)))
                    else rtn ! k)" if k: "k < length rtn" for k
  proof (cases "c * rows \<le> k \<and> k < c * rows + rows")
    case True
    then have "k div rows = c" "k mod rows = k - c * rows"
      using block_div_mod [of c rows k] by simp_all
    with True inner(3) ih(1,2) k show ?thesis by simp
  next
    case False
    with inner(3) ih k show ?thesis by auto
  qed
  with inner(1,2) ih(1,2) show ?case by simp
qed

lemma convertPixels_result:
  assumes "0 \<le> Dx (Bounds img)" "0 \<le> Dy (Bounds img)"
  shows "convertPixels ycc img =
         Inr (map (\<lambda>k. NewPixel ycc (At img (int (k div nat (Dy (Bounds img))))
                                             (int (k mod nat (Dy (Bounds img))))))
                [0..<nat (Dx (Bounds img)) * nat (Dy (Bounds img))])"
proof -
  let ?cols = "nat (Dx (Bounds img))" and ?rows = "nat (Dy (Bounds img))"
  let ?r0 = "replicate (?cols * ?rows) (None :: Pixel option)"
  obtain rtn idx where st:
    "fold (\<lambda>col st. fold (convertStep ycc img col) [0..<?rows] st) [0..<?cols] (?r0, 0) = (rtn, idx)"
    by (cases "fold (\<lambda>col st. fold (convertStep ycc img col) [0..<?rows] st) [0..<?cols] (?r0, 0)")
  from convert_outer [OF st] have
    "length rtn = ?cols * ?rows"
    "\<forall>k < ?cols * ?rows.
       rtn ! k = NewPixel ycc (At img (int (k div ?rows)) (int (k mod ?rows)))"
    by simp_all
  then have "rtn = map (\<lambda>k. NewPixel ycc (At img (int (k div ?rows)) (int (k mod ?rows))))
                     [0..<?cols * ?rows]"
    by (simp add: list_eq_iff_nth_eq)
  moreover from assms have "\<not> Dx (Bounds img) * Dy (Bounds img) < 0"
    by (simp add: not_less)
  moreover from assms have "nat (Dx (Bounds img) * Dy (Bounds img)) = ?cols * ?rows"
    by (simp add: nat_mult_distrib)
  ultimately show ?thesis
    using st by (simp add: convertPixels_def Let_def)
qed

lemma convertPixels_never_unsupported: "convertPixels ycc img \<noteq> Inl UnsupportedColorFormat"
  by (simp add: convertPixels_def Let_def)

lemma ToImageStep_ok:
  assumes "idx < length p"
  shows "ToImageStep p col row (Inr (im, idx)) =
         Inr (ImageSet im (int col) (int row) (PixelColor (p ! idx)), idx + 1)"
  using assms by (simp add: ToImageStep_def)

lemma ImageSet_Bounds [simp]: "Bounds (ImageSet im x y c) = Bounds im"
  by (simp add: ImageSet_def)

lemma ImageSet_At_inside:
  assumes "MinX (Bounds im) \<le> x" "x < MaxX (Bounds im)" "MinY (Bounds im) \<le> y" "y < MaxY (Bounds im)"
  shows "At (ImageSet im x y c) x' y' = (if x' = x \<and> y' = y then RGBAValue c else At im x' y')"
  using assms by (simp add: ImageSet_def)

lemma toImage_inner:
  assumes "idx + m \<le> length p"
    and "MinX (Bounds im) \<le> int col" "int col < MaxX (Bounds im)"
    and "MinY (Bounds im) \<le> 0" "int m \<le> MaxY (Bounds im)"
  shows "\<exists>im'. fold (ToImageStep p col) [0..<m] (Inr (im, idx)) = Inr (im', idx + m) \<and>
               Bounds im' = Bounds im \<and>
               (\<forall>x y. At im' x y =
                  (if x = int col \<and> 0 \<le> y \<and> y < int m
                   then RGBAValue (PixelColor (p ! (idx + nat y)))
                   else At im x y))"
  using assms
proof (induction m)
  case 0
  then show ?case by auto
next
  case (Suc m)
  from Suc obtain im1 where ih:
    "fold (ToImageStep p col) [0..<m] (Inr (im, idx)) = Inr (im1, idx + m)"
    "Bounds im1 = Bounds im"
    "\<forall>x y. At im1 x y =
       (if x = int col \<and> 0 \<le> y \<and> y < int m
        then RGBAValue (PixelColor (p ! (idx + nat y)))
        else At im x y)"
    by auto
  let ?im' = "ImageSet im1 (int col) (int m) (PixelColor (p ! (idx + m)))"
  from Suc.prems have "idx + m < length p" by simp
  from ToImageStep_ok [OF this] ih(1)
  have f: "fold (ToImageStep p col) [0..<Suc m] (Inr (im, idx)) = Inr (?im', idx + Suc m)"
    by simp
  have b: "Bounds ?im' = Bounds im"
    by (simp add: ih(2))
  from Suc.prems ih(2) have inside:
    "MinX (Bounds im1) \<le> int col" "int col < MaxX (Bounds im1)"
    "MinY (Bounds im1) \<le> int m" "int m < MaxY (Bounds im1)"
    by simp_all
  have a: "At ?im' x y =
        (if x = int col \<and> 0 \<le> y \<and> y < int (Suc m)
         then RGBAValue (PixelColor (p ! (idx + nat y)))
         else At im x y)" for x y
  proof (cases "x = int col \<and> y = int m")
    case True
    then show ?thesis
      by (simp add: ImageSet_At_inside [OF inside])
  next
    case False
    then show ?thesis
      using ih(3) by (auto simp: ImageSet_At_inside [OF inside])
  qed
  from f b a show ?case by blast
qed

lemma toImage_outer:
  assumes "c * rows \<le> length p"
    and "MinX (Bounds im) \<le> 0" "int c \<le> MaxX (Bounds im)"
    and "MinY (Bounds im) \<le> 0" "int rows \<le> MaxY (Bounds im)"
  shows "\<exists>im'. fold (\<lambda>col st. fold (ToImageStep p col) [0..<rows] st) [0..<c] (Inr (im, 0))
                 = Inr (im', c * rows) \<and>
               Bounds im' = Bounds im \<and>
               (\<forall>x y. At im' x y =
                  (if 0 \<le> x \<and> x < int c \<and> 0 \<le> y \<and> y < int rows
                   then RGBAValue (PixelColor (p ! (nat x * rows + nat y)))
                   else At im x y))"
  using assms
proof (induction c)
  case 0
  then show ?case by auto
next
  case (Suc c)
  from Suc.prems have "c * rows \<le> length p" "int c \<le> MaxX (Bounds im)"
    by simp_all
  with Suc obtain im1 where ih:
    "fold (\<lambda>col st. fold (ToImageStep p col) [0..<rows] st) [0..<c] (Inr (im, 0))
       = Inr (im1, c * rows)"
    "Bounds im1 = Bounds im"
    "\<forall>x y. At im1 x y =
       (if 0 \<le> x \<and> x < int c \<and> 0 \<le> y \<and> y < int rows
        then RGBAValue (PixelColor (p ! (nat x * rows + nat y)))
        else At im x y)"
    by auto
  from Suc.prems ih(2) have pre: "c * rows + rows \<le> length p"
    "MinX (Bounds im1) \<le> int c" "int c < MaxX (Bounds im1)"
    "MinY (Bounds im1) \<le> 0" "int rows \<le> MaxY (Bounds im1)"
    by simp_all
  from toImage_inner [OF pre] obtain im2 where inner:
    "fold (ToImageStep p c) [0..<rows] (Inr (im1, c * rows)) = Inr (im2, c * rows + rows)"
    "Bounds im2 = Bounds im1"
    "\<forall>x y. At im2 x y =
       (if x = int c \<and> 0 \<le> y \<and> y < int rows
        then RGBAValue (PixelColor (p ! (c * rows + nat y)))
        else At im1 x y)"
    by blast
  from ih(1) inner(1) have f:
    "fold (\<lambda>col st. fold (ToImageStep p col) [0..<rows] st) [0..<Suc c] (Inr (im, 0))
       = Inr (im2, Suc c * rows)"
    by (simp add: add.commute)
  have a: "At im2 x y =
        (if 0 \<le> x \<and> x < int (Suc c) \<and> 0 \<le> y \<and> y < int rows
         then RGBAValue (PixelColor (p ! (nat x * rows + nat y)))
         else At im x y)" for x y
  proof (cases "x = int c")
    case True
    then show ?thesis
      using inner(3) ih(3) by simp
  next
    case False
    then show ?thesis
      using inner(3) ih(3) by auto
  qed
  from f inner(2) ih(2) a show ?case by auto
qed

lemma NewPixel_Some:
  assumes "NewPixel ycc c \<noteq> None"
  shows "\<exists>cc. convertColor ycc c = Inr cc \<and>
              PixelColor (the (NewPixel ycc c)) = RGBA (rgbaR cc) (rgbaG cc) (rgbaB cc) 255"
  using assms by (auto simp: NewPixel_def PixelColor_def UIntRGBA_def split: sum.splits)

text \<open>
  C6, amended. For every source image whose bounds start at \<open>(0, 0)\<close> and whose pixels
  all convert (no slot of the buffer of \<^verbatim>\<open>convertPixels\<close> is nil), \<^verbatim>\<open>ToImage\<close> of that
  buffer with the width and the height of the source succeeds, and the image it returns
  has the bounds of the source and, at every point of the bounds, the R, G and B
  channels of the RGBA conversion of the source colour at that point, with alpha 255.
\<close>

theorem convert_ToImage_roundtrip:
  assumes "MinX (Bounds img) = 0" and "MinY (Bounds img) = 0"
    and "0 \<le> MaxX (Bounds img)" and "0 \<le> MaxY (Bounds img)"
    and "convertPixels ycc img = Inr raw" and "None \<notin> set raw"
  shows "\<exists>out. ToImage (map the raw) (Dx (Bounds img)) (Dy (Bounds img)) = Inr out \<and>
              Bounds out = Bounds img \<and>
              (\<forall>x y. 0 \<le> x \<and> x < Dx (Bounds img) \<and> 0 \<le> y \<and> y < Dy (Bounds img) \<longrightarrow>
                 (\<exists>cc. convertColor ycc (At img x y) = Inr cc \<and>
                       At out x y = RGBAValue (RGBA (rgbaR cc) (rgbaG cc) (rgbaB cc) 255)))"
proof -
  let ?cols = "nat (Dx (Bounds img))" and ?rows = "nat (Dy (Bounds img))"
  let ?p = "map the raw"
  let ?im0 = "NewRGBA (Rect 0 0 (Dx (Bounds img)) (Dy (Bounds img)))"
  from assms(1-4) have d: "Dx (Bounds img) = MaxX (Bounds img)" "Dy (Bounds img) = MaxY (Bounds img)"
    "0 \<le> Dx (Bounds img)" "0 \<le> Dy (Bounds img)"
    by (simp_all add: Dx_def Dy_def)
  from convertPixels_result [OF d(3,4), of ycc] assms(5)
  have raw: "raw = map (\<lambda>k. NewPixel ycc (At img (int (k div ?rows)) (int (k mod ?rows))))
                     [0..<?cols * ?rows]"
    by simp
  then have lr: "length raw = ?cols * ?rows"
    by simp
  then have len: "length ?p = ?cols * ?rows"
    by simp
  have b0: "Bounds ?im0 = Bounds img"
    using assms(1-4) d by (simp add: NewRGBA_def Rect_def)
  have pre: "?cols * ?rows \<le> length ?p" "MinX (Bounds ?im0) \<le> 0"
    "int ?cols \<le> MaxX (Bounds ?im0)" "MinY (Bounds ?im0) \<le> 0" "int ?rows \<le> MaxY (Bounds ?im0)"
    unfolding b0 using len d assms(1,2) by simp_all
  from toImage_outer [OF pre] obtain out where o:
    "fold (\<lambda>col st. fold (ToImageStep ?p col) [0..<?rows] st) [0..<?cols] (Inr (?im0, 0))
       = Inr (out, ?cols * ?rows)"
    "Bounds out = Bounds ?im0"
    "\<forall>x y. At out x y =
       (if 0 \<le> x \<and> x < int ?cols \<and> 0 \<le> y \<and> y < int ?rows
        then RGBAValue (PixelColor (?p ! (nat x * ?rows + nat y)))
        else At ?im0 x y)"
    by blast
  from o(1) have t: "ToImage ?p (Dx (Bounds img)) (Dy (Bounds img)) = Inr out"
    by (simp add: ToImage_def)
  have px: "\<exists>cc. convertColor ycc (At img x y) = Inr cc \<and>
                 At out x y = RGBAValue (RGBA (rgbaR cc) (rgbaG cc) (rgbaB cc) 255)"
    if xy: "0 \<le> x \<and> x < Dx (Bounds img) \<and> 0 \<le> y \<and> y < Dy (Bounds img)" for x y
  proof -
    let ?k = "nat x * ?rows + nat y"
    from xy have ny: "nat y < ?rows" and nx: "nat x < ?cols"
      by simp_all
    then have "?k < nat x * ?rows + ?rows" by simp
    also have "\<dots> = Suc (nat x) * ?rows" by simp
    also from nx have "\<dots> \<le> ?cols * ?rows"
      by (intro mult_le_mono1) (simp only: Suc_le_eq)
    finally have k: "?k < ?cols * ?rows" .
    from ny have dm: "?k div ?rows = nat x" "?k mod ?rows = nat y"
      by simp_all
    from k have r: "raw ! ?k = NewPixel ycc (At img x y)"
      unfolding raw using dm xy by simp
    from k have "raw ! ?k \<in> set raw"
      by (intro nth_mem) (simp only: lr)
    with assms(6) r have "NewPixel ycc (At img x y) \<noteq> None"
      by metis
    from NewPixel_Some [OF this] obtain cc where cc:
      "convertColor ycc (At img x y) = Inr cc"
      "PixelColor (the (NewPixel ycc (At img x y))) = RGBA (rgbaR cc) (rgbaG cc) (rgbaB cc) 255"
      by blast
    from k len have "?p ! ?k = the (raw ! ?k)"
      by simp
    with o(3) xy r cc(2) have "At out x y = RGBAValue (RGBA (rgbaR cc) (rgbaG cc) (rgbaB cc) 255)"
      by simp
    with cc(1) show ?thesis by blast
  qed
  from t o(2) b0 px show ?thesis by auto
qed

lemma NewPixel_RGBAValue:
  "NewPixel ycc (RGBAValue c) = Some (NewPixelRGB (rgbaR c) (rgbaG c) (rgbaB c))"
  by (simp add: NewPixel_def convertColor_def)

lemma convert_translucent:
  "convertPixels ycc0 translucentImage = Inr [Some (NewPixelRGB 10 20 30)]"
  by (simp add: convertPixels_def translucentImage_def Rect_def Dx_def Dy_def Let_def
      convertStep_pair NewPixel_RGBAValue)

lemma convert_offset:
  "convertPixels ycc0 offsetImage = Inr [Some (NewPixelRGB 0 0 0)]"
  by (simp add: convertPixels_def offsetImage_def Rect_def Dx_def Dy_def Let_def
      convertStep_pair NewPixel_RGBAValue)

lemma ToImage_one:
  "ToImage [px] 1 1 =
     Inr (ImageSet (NewRGBA (Rect 0 0 1 1)) 0 0 (PixelColor px))"
  by (simp add: ToImage_def ToImageStep_def)

text \<open>
  The claim as stated fails in two ways. A pixel \<open>(10, 20, 30, 128)\<close> comes back as
  \<open>(10, 20, 30, 255)\<close>: a \<^verbatim>\<open>Pixel\<close> has no alpha channel. And the only pixel of an image
  with bounds from \<open>(1, 0)\<close> to \<open>(2, 1)\<close> is never read: \<^verbatim>\<open>convertPixels\<close> reads
  \<^verbatim>\<open>At(0, 0)\<close>, outside the bounds, and the image built has other bounds and a black
  pixel.
\<close>

theorem roundtrip_counterexample:
  "Bounds translucentImage = Rect 0 0 1 1 \<and>
   convertColor ycc0 (At translucentImage 0 0) = Inr (RGBA 10 20 30 128) \<and>
   convertPixels ycc0 translucentImage = Inr [Some (NewPixelRGB 10 20 30)] \<and>
   ImageAt (ToImage [NewPixelRGB 10 20 30] 1 1) 0 0 = Inr (RGBAValue (RGBA 10 20 30 255)) \<and>
   Bounds offsetImage = Rect 1 0 2 1 \<and>
   convertColor ycc0 (At offsetImage 1 0) = Inr (RGBA 10 20 30 255) \<and>
   convertPixels ycc0 offsetImage = Inr [Some (NewPixelRGB 0 0 0)] \<and>
   ImageBounds (ToImage [NewPixelRGB 0 0 0] 1 1) = Inr (Rect 0 0 1 1) \<and>
   ImageAt (ToImage [NewPixelRGB 0 0 0] 1 1) 0 0 = Inr (RGBAValue (RGBA 0 0 0 255))"
proof (intro conjI)
  show "Bounds translucentImage = Rect 0 0 1 1"
    by (simp add: translucentImage_def)
  show "convertColor ycc0 (At translucentImage 0 0) = Inr (RGBA 10 20 30 128)"
    by (simp add: translucentImage_def convertColor_def)
  show "convertPixels ycc0 translucentImage = Inr [Some (NewPixelRGB 10 20 30)]"
    by (rule convert_translucent)
  show "ImageAt (ToImage [NewPixelRGB 10 20 30] 1 1) 0 0 = Inr (RGBAValue (RGBA 10 20 30 255))"
    by (simp add: ToImage_one ImageAt_def ImageSet_def NewRGBA_def Rect_def PixelColor_def
        UIntRGBA_def)
  show "Bounds offsetImage = Rect 1 0 2 1"
    by (simp add: offsetImage_def)
  show "convertColor ycc0 (At offsetImage 1 0) = Inr (RGBA 10 20 30 255)"
    by (simp add: offsetImage_def convertColor_def)
  show "convertPixels ycc0 offsetImage = Inr [Some (NewPixelRGB 0 0 0)]"
    by (rule convert_offset)
  show "ImageBounds (ToImage [NewPixelRGB 0 0 0] 1 1) = Inr (Rect 0 0 1 1)"
    by (simp add: ToImage_one ImageBounds_def NewRGBA_def)
  show "ImageAt (ToImage [NewPixelRGB 0 0 0] 1 1) 0 0 = Inr (RGBAValue (RGBA 0 0 0 255))"
    by (simp add: ToImage_one ImageAt_def ImageSet_def NewRGBA_def Rect_def PixelColor_def
        UIntRGBA_def)
qed

text \<open>
  C4. The claim asks for the UnsupportedColorFormat error to reach the caller. In the
  code \<^verbatim>\<open>convertPixels\<close> never returns that error, for any image: on an image of one
  grey pixel \<^verbatim>\<open>convertColor\<close> fails with it, \<^verbatim>\<open>NewPixel\<close> turns the failure into nil, and
  \<^verbatim>\<open>convertPixels\<close> succeeds with a buffer whose only slot is nil.
\<close>

theorem convertPixels_drops_conversion_error:
  "convertPixels ycc img \<noteq> Inl UnsupportedColorFormat \<and>
   convertColor ycc (At grayImage 0 0) = Inl UnsupportedColorFormat \<and>
   NewPixel ycc (At grayImage 0 0) = None \<and>
   convertPixels ycc grayImage = Inr [None]"
  by (simp add: convertPixels_def grayImage_def Rect_def Dx_def Dy_def Let_def
      convertStep_pair NewPixel_def convertColor_def)

lemma convert_example:
  "convertPixels ycc0 exampleImage =
     Inr [Some (NewPixelRGB 0 0 7), Some (NewPixelRGB 0 1 7),
          Some (NewPixelRGB 1 0 7), Some (NewPixelRGB 1 1 7)]"
  by (simp add: convertPixels_def exampleImage_def Rect_def Dx_def Dy_def Let_def
      convertStep_pair NewPixel_RGBAValue eval_nat_numeral)

text \<open>Two columns of two pixels: the pixel of column 0, row 1 and that of column 1, row 0 keep their places.\<close>

theorem convert_ToImage_roundtrip_witness:
  "MinX (Bounds exampleImage) = 0 \<and> MinY (Bounds exampleImage) = 0 \<and>
   0 \<le> MaxX (Bounds exampleImage) \<and> 0 \<le> MaxY (Bounds exampleImage) \<and>
   convertPixels ycc0 exampleImage =
     Inr [Some (NewPixelRGB 0 0 7), Some (NewPixelRGB 0 1 7),
          Some (NewPixelRGB 1 0 7), Some (NewPixelRGB 1 1 7)] \<and>
   (\<exists>out. ToImage [NewPixelRGB 0 0 7, NewPixelRGB 0 1 7, NewPixelRGB 1 0 7, NewPixelRGB 1 1 7]
            2 2 = Inr out \<and>
          Bounds out = Bounds exampleImage \<and>
          At out 0 1 = RGBAValue (RGBA 0 1 7 255) \<and>
          At out 1 0 = RGBAValue (RGBA 1 0 7 255))"
proof -
  have b: "MinX (Bounds exampleImage) = 0" "MinY (Bounds exampleImage) = 0"
    "0 \<le> MaxX (Bounds exampleImage)" "0 \<le> MaxY (Bounds exampleImage)"
    by (simp_all add: exampleImage_def Rect_def)
  have d: "Dx (Bounds exampleImage) = 2" "Dy (Bounds exampleImage) = 2"
    by (simp_all add: exampleImage_def Rect_def Dx_def Dy_def)
  have n: "None \<notin> set [Some (NewPixelRGB 0 0 7), Some (NewPixelRGB 0 1 7),
          Some (NewPixelRGB 1 0 7), Some (NewPixelRGB 1 1 7)]"
    by simp
  from convert_ToImage_roundtrip [OF b convert_example n] obtain out where o:
    "ToImage [NewPixelRGB 0 0 7, NewPixelRGB 0 1 7, NewPixelRGB 1 0 7, NewPixelRGB 1 1 7]
       2 2 = Inr out"
    "Bounds out = Bounds exampleImage"
    "\<And>x y. 0 \<le> x \<and> x < 2 \<and> 0 \<le> y \<and> y < 2 \<Longrightarrow>
       (\<exists>cc. convertColor ycc0 (At exampleImage x y) = Inr cc \<and>
             At out x y = RGBAValue (RGBA (rgbaR cc) (rgbaG cc) (rgbaB cc) 255))"
    unfolding d by auto
  from o(3) [of 0 1] have "At out 0 1 = RGBAValue (RGBA 0 1 7 255)"
    by (auto simp: exampleImage_def convertColor_def)
  moreover from o(3) [of 1 0] have "At out 1 0 = RGBAValue (RGBA 1 0 7 255)"
    by (auto simp: exampleImage_def convertColor_def)
  ultimately show ?thesis
    using b convert_example o(1,2) by blast
qed

end
